theory Spec2Isabelle
  imports Main
begin

text \<open>
  A location capture application: a browser client (\<^verbatim>\<open>App.jsx\<close>) that validates an
  identifier, asks for the position and posts it with retries, and an Express handler for
  \<^verbatim>\<open>POST /api/submit-location\<close> that validates the posted body.
\<close>

section \<open>JavaScript values\<close>

text \<open>
  The values that reach the two programs: what \<^verbatim>\<open>JSON.parse\<close> builds (objects, arrays,
  strings, numbers, booleans, null) together with \<^verbatim>\<open>undefined\<close>, the value of a property
  that is not there. A number is a sign, a mantissa and a binary exponent, or one of the
  three special values; the programs only ask for its type and whether it is zero or NaN.
  An object is the list of its own properties; the first binding of a key is the one read.
\<close>

datatype jsnum = NaN | PosInfinity | NegInfinity | Finite bool nat int

datatype jsval =
    JUndefined
  | JNull
  | JBool bool
  | JNum jsnum
  | JStr string
  | JArr "jsval list"
  | JObj "(string \<times> jsval) list"

datatype js_error = Error string | TypeError string | DOMException string

fun num_truthy :: "jsnum \<Rightarrow> bool" where
  "num_truthy NaN = False"
| "num_truthy PosInfinity = True"
| "num_truthy NegInfinity = True"
| "num_truthy (Finite sg m e) = (m \<noteq> 0)"

text \<open>ToBoolean: \<^verbatim>\<open>!v\<close> is \<open>\<not> truthy v\<close>.\<close>

fun truthy :: "jsval \<Rightarrow> bool" where
  "truthy JUndefined = False"
| "truthy JNull = False"
| "truthy (JBool b) = b"
| "truthy (JNum n) = num_truthy n"
| "truthy (JStr s) = (s \<noteq> [])"
| "truthy (JArr xs) = True"
| "truthy (JObj ps) = True"

fun typeof :: "jsval \<Rightarrow> string" where
  "typeof JUndefined = ''undefined''"
| "typeof JNull = ''object''"
| "typeof (JBool b) = ''boolean''"
| "typeof (JNum n) = ''number''"
| "typeof (JStr s) = ''string''"
| "typeof (JArr xs) = ''object''"
| "typeof (JObj ps) = ''object''"

text \<open>
  Reading a property \<^verbatim>\<open>v.k\<close>, for the keys these programs read (\<^verbatim>\<open>crate_int_id\<close>,
  \<^verbatim>\<open>location\<close>, \<^verbatim>\<open>latitude\<close>, \<^verbatim>\<open>longitude\<close>): on \<^verbatim>\<open>undefined\<close> and \<^verbatim>\<open>null\<close> it throws a
  TypeError (so does destructuring them; the error carries the key); on an object it is the property or \<^verbatim>\<open>undefined\<close>;
  primitives and arrays have no property of these names.
\<close>

fun get_prop :: "jsval \<Rightarrow> string \<Rightarrow> js_error + jsval" where
  "get_prop JUndefined k = Inl (TypeError k)"
| "get_prop JNull k = Inl (TypeError k)"
| "get_prop (JObj ps) k = Inr (case map_of ps k of None \<Rightarrow> JUndefined | Some v \<Rightarrow> v)"
| "get_prop (JBool b) k = Inr JUndefined"
| "get_prop (JNum n) k = Inr JUndefined"
| "get_prop (JStr s) k = Inr JUndefined"
| "get_prop (JArr xs) k = Inr JUndefined"

section \<open>The server: POST /api/submit-location\<close>

text \<open>
  \<^verbatim>\<open>res.status(c).json(b)\<close> is the reply \<open>\<lparr>reply_status = c, reply_json = b\<rparr>\<close>; the handler
  also returns the lines it logged. \<open>Inl\<close> is an exception thrown out of the handler.
\<close>

record reply =
  reply_status :: nat
  reply_json :: jsval

datatype log_line = ReceivedLocation jsval jsval

definition missing_crate_int_id :: reply where
  "missing_crate_int_id = \<lparr>reply_status = 400, reply_json = JObj [(''error'', JStr ''missing crate_int_id'')]\<rparr>"

definition invalid_location :: reply where
  "invalid_location = \<lparr>reply_status = 400, reply_json = JObj [(''error'', JStr ''invalid location'')]\<rparr>"

definition accepted :: reply where
  "accepted = \<lparr>reply_status = 200, reply_json = JObj [(''ok'', JBool True)]\<rparr>"

definition submit_location :: "jsval \<Rightarrow> js_error + (log_line list \<times> reply)" where
  "submit_location body =
     (case get_prop body ''crate_int_id'' of
        Inl e \<Rightarrow> Inl e
      | Inr crate_int_id \<Rightarrow>
     (case get_prop body ''location'' of
        Inl e \<Rightarrow> Inl e
      | Inr location \<Rightarrow>
     if \<not> truthy crate_int_id then Inr ([], missing_crate_int_id)
     else if \<not> truthy location then Inr ([], invalid_location)
     else
     (case get_prop location ''latitude'' of
        Inl e \<Rightarrow> Inl e
      | Inr lat \<Rightarrow>
     if typeof lat \<noteq> ''number'' then Inr ([], invalid_location)
     else
     (case get_prop location ''longitude'' of
        Inl e \<Rightarrow> Inl e
      | Inr lng \<Rightarrow>
     if typeof lng \<noteq> ''number'' then Inr ([], invalid_location)
     else Inr ([ReceivedLocation crate_int_id location], accepted)))))"

text \<open>What the claims say about a body, read off the body itself.\<close>

definition field :: "jsval \<Rightarrow> string \<Rightarrow> jsval" where
  "field v k = (case get_prop v k of Inl e \<Rightarrow> JUndefined | Inr x \<Rightarrow> x)"

definition destructurable :: "jsval \<Rightarrow> bool" where
  "destructurable v = (v \<noteq> JUndefined \<and> v \<noteq> JNull)"

definition numeric_field :: "jsval \<Rightarrow> string \<Rightarrow> bool" where
  "numeric_field v k = (case get_prop v k of Inl e \<Rightarrow> False | Inr x \<Rightarrow> typeof x = ''number'')"

section \<open>The client: identifier validation\<close>

text \<open>
  \<^verbatim>\<open>isValidCrateId(id)\<close> is applied to \<^verbatim>\<open>crateId.current\<close>, the value of a URL query
  parameter: \<^verbatim>\<open>URLSearchParams.get\<close> gives a string or \<^verbatim>\<open>null\<close> (\<open>None\<close>).
  The regular expression \<^verbatim>\<open>/^\d+$/\<close> is matched from the start of the string: one digit,
  then as many digits as there are, then the end of the input.
\<close>

definition is_digit :: "char \<Rightarrow> bool" where
  "is_digit c = (c \<in> set ''0123456789'')"

fun skip_digits :: "string \<Rightarrow> string" where
  "skip_digits [] = []"
| "skip_digits (c # cs) = (if is_digit c then skip_digits cs else c # cs)"

definition regex_digits_test :: "string \<Rightarrow> bool" where
  "regex_digits_test s = (case s of [] \<Rightarrow> False | c # cs \<Rightarrow> is_digit c \<and> skip_digits cs = [])"

definition isValidCrateId :: "string option \<Rightarrow> bool" where
  "isValidCrateId cid =
     (case cid of
        None \<Rightarrow> False
      | Some s \<Rightarrow> if s = [] then False else regex_digits_test s)"

section \<open>The client: sendLocation\<close>

text \<open>
  \<^verbatim>\<open>fetch\<close> and \<^verbatim>\<open>JSON.stringify\<close> are parameters. The transport \<open>fetch n body\<close> is what the
  \<open>n\<close>-th call of one run (counted from 0) does with the request body: it rejects with an
  error or resolves to a response with a status and the outcome of \<^verbatim>\<open>res.text()\<close>
  (\<open>None\<close> when that promise rejects). \<open>stringify\<close> may throw, as \<^verbatim>\<open>JSON.stringify\<close> does
  on a cyclic payload. The events of a run are its POST requests and the delays it asks
  \<^verbatim>\<open>setTimeout\<close> for, in order.
\<close>

record response =
  res_status :: nat
  res_text :: "string option"

datatype fetch_outcome = Rejected js_error | Resolved response

datatype event = Post string | Wait nat

datatype submission_result = Success nat | Failure "js_error option"

definition res_ok :: "response \<Rightarrow> bool" where
  "res_ok res = (200 \<le> res_status res \<and> res_status res \<le> 299)"

definition backoff :: "nat \<Rightarrow> nat" where
  "backoff n = 500 * 2 ^ n"

definition digit_char :: "nat \<Rightarrow> char" where
  "digit_char d = ''0123456789'' ! d"

fun show_nat :: "nat \<Rightarrow> string" where
  "show_nat n = (if n < 10 then [digit_char n] else show_nat (n div 10) @ [digit_char (n mod 10)])"

declare show_nat.simps [simp del]

text \<open>\<^verbatim>\<open>await res.text().catch(() => "")\<close>\<close>

definition text_or_empty :: "response \<Rightarrow> string" where
  "text_or_empty res = (case res_text res of None \<Rightarrow> [] | Some t \<Rightarrow> t)"

definition http_error :: "response \<Rightarrow> js_error" where
  "http_error res = Error (''HTTP '' @ show_nat (res_status res) @ '' '' @ text_or_empty res)"

text \<open>
  One run of the \<^verbatim>\<open>try\<close> block: the events it causes, and either the exception thrown
  inside it (\<open>Inl\<close>, which the \<^verbatim>\<open>catch\<close> clause stores in \<^verbatim>\<open>lastErr\<close>) or how it ends:
  by \<^verbatim>\<open>return\<close>, by \<^verbatim>\<open>break\<close> with \<^verbatim>\<open>lastErr\<close> set, or by falling out of the block with
  \<^verbatim>\<open>lastErr\<close> set.
\<close>

datatype try_end = Returns nat | Breaks js_error | FallsThrough js_error

definition try_block ::
  "(jsval \<Rightarrow> js_error + string) \<Rightarrow> (nat \<Rightarrow> string \<Rightarrow> fetch_outcome) \<Rightarrow> jsval \<Rightarrow> nat
     \<Rightarrow> event list \<times> (js_error + try_end)" where
  "try_block stringify fetch payload attempt =
     (case stringify payload of
        Inl err \<Rightarrow> ([], Inl err)
      | Inr body \<Rightarrow>
          (case fetch attempt body of
             Rejected err \<Rightarrow> ([Post body], Inl err)
           | Resolved res \<Rightarrow>
               if res_ok res then ([Post body], Inr (Returns (res_status res)))
               else if 400 \<le> res_status res \<and> res_status res < 500
                 then ([Post body], Inr (Breaks (http_error res)))
                 else ([Post body], Inr (FallsThrough (http_error res)))))"

text \<open>
  The \<^verbatim>\<open>while (attempt <= retries)\<close> loop, from the current \<^verbatim>\<open>attempt\<close> and \<^verbatim>\<open>lastErr\<close>.
  The result is the promise's outcome: \<open>Inr\<close> the value it resolves to (with the events of
  the run), \<open>Inl\<close> an exception that rejects it.
\<close>

definition after_events :: "event list \<Rightarrow> js_error + (submission_result \<times> event list)
    \<Rightarrow> js_error + (submission_result \<times> event list)" where
  "after_events evs r = (case r of Inl e \<Rightarrow> Inl e | Inr (res, tr) \<Rightarrow> Inr (res, evs @ tr))"

function sendLocation_loop ::
  "(jsval \<Rightarrow> js_error + string) \<Rightarrow> (nat \<Rightarrow> string \<Rightarrow> fetch_outcome) \<Rightarrow> jsval \<Rightarrow> int
     \<Rightarrow> nat \<Rightarrow> js_error option \<Rightarrow> js_error + (submission_result \<times> event list)" where
  "sendLocation_loop stringify fetch payload retries attempt lastErr =
     (if int attempt \<le> retries then
        (case try_block stringify fetch payload attempt of
           (evs, Inr (Returns st)) \<Rightarrow> Inr (Success st, evs)
         | (evs, Inr (Breaks err)) \<Rightarrow> Inr (Failure (Some err), evs)
         | (evs, Inr (FallsThrough err)) \<Rightarrow>
             after_events (evs @ [Wait (backoff (Suc attempt))])
               (sendLocation_loop stringify fetch payload retries (Suc attempt) (Some err))
         | (evs, Inl err) \<Rightarrow>
             after_events (evs @ [Wait (backoff (Suc attempt))])
               (sendLocation_loop stringify fetch payload retries (Suc attempt) (Some err)))
      else Inr (Failure lastErr, []))"
  by pat_completeness auto
termination
  by (relation "measure (\<lambda>(stringify, fetch, payload, retries, attempt, lastErr).
        nat (retries + 1 - int attempt))") auto

declare sendLocation_loop.simps [simp del]

text \<open>\<^verbatim>\<open>sendLocation(payload, { retries = 3 } = {})\<close>: \<open>None\<close> is a call that gives no bound.\<close>

definition retry_bound :: "int option \<Rightarrow> int" where
  "retry_bound opts = (case opts of None \<Rightarrow> 3 | Some r \<Rightarrow> r)"

definition sendLocation ::
  "(jsval \<Rightarrow> js_error + string) \<Rightarrow> (nat \<Rightarrow> string \<Rightarrow> fetch_outcome) \<Rightarrow> jsval \<Rightarrow> int option
     \<Rightarrow> js_error + (submission_result \<times> event list)" where
  "sendLocation stringify fetch payload opts =
     sendLocation_loop stringify fetch payload (retry_bound opts) 0 None"

text \<open>A run of the \<^verbatim>\<open>try\<close> block after which the loop goes on to \<^verbatim>\<open>attempt++\<close>.\<close>

definition retriable_failure :: "js_error + try_end \<Rightarrow> bool" where
  "retriable_failure r =
     (case r of Inl err \<Rightarrow> True | Inr (FallsThrough err) \<Rightarrow> True | Inr (Returns st) \<Rightarrow> False
      | Inr (Breaks err) \<Rightarrow> False)"

definition events_of :: "js_error + (submission_result \<times> event list) \<Rightarrow> event list" where
  "events_of r = (case r of Inl e \<Rightarrow> [] | Inr (res, evs) \<Rightarrow> evs)"

fun posts :: "event list \<Rightarrow> string list" where
  "posts [] = []"
| "posts (Post b # evs) = b # posts evs"
| "posts (Wait d # evs) = posts evs"

fun waits :: "event list \<Rightarrow> nat list" where
  "waits [] = []"
| "waits (Post b # evs) = waits evs"
| "waits (Wait d # evs) = d # waits evs"

section \<open>The client: the App component and its pagehide listener\<close>

text \<open>
  The component's state is \<^verbatim>\<open>crateId.current\<close> and the values held by \<^verbatim>\<open>useState\<close>.
  React runs the function given to \<^verbatim>\<open>useEffect(f, [])\<close> once, after the first render, and
  the closures \<open>f\<close> creates see the bindings of that render. A registered
  \<^verbatim>\<open>handleUnload\<close> is therefore recorded with the value of \<^verbatim>\<open>coords\<close> it closed over.
\<close>

datatype listener = HandleUnload jsval

datatype shown = Message string | StringOf js_error

record app =
  crateId :: string
  coords :: jsval
  status :: string
  error :: "shown option"
  listeners :: "listener list"

text \<open>
  \<^verbatim>\<open>a || b\<close> on values that are a string or \<^verbatim>\<open>null\<close>, and the initial value of the
  \<^verbatim>\<open>crateId\<close> ref: the first non-empty one of the query parameters \<^verbatim>\<open>crate_int_id\<close>,
  \<^verbatim>\<open>crate_id\<close> and \<^verbatim>\<open>id\<close> (\<^verbatim>\<open>getQueryParam\<close> gives \<^verbatim>\<open>null\<close> for a missing one), or the
  empty string.
\<close>

definition js_or :: "string option \<Rightarrow> string option \<Rightarrow> string option" where
  "js_or a b = (case a of None \<Rightarrow> b | Some s \<Rightarrow> if s = [] then b else Some s)"

definition crateId_of_query :: "(string \<rightharpoonup> string) \<Rightarrow> string" where
  "crateId_of_query getQueryParam =
     (case js_or (js_or (js_or (getQueryParam ''crate_int_id'') (getQueryParam ''crate_id''))
                   (getQueryParam ''id'')) (Some [])
      of None \<Rightarrow> [] | Some s \<Rightarrow> s)"

text \<open>The first render: \<^verbatim>\<open>useState("idle")\<close>, \<^verbatim>\<open>useState(null)\<close>, \<^verbatim>\<open>useState(null)\<close>.\<close>

definition first_render :: "(string \<rightharpoonup> string) \<Rightarrow> app" where
  "first_render getQueryParam =
     \<lparr>crateId = crateId_of_query getQueryParam, coords = JNull, status = ''idle'', error = None,
      listeners = []\<rparr>"

text \<open>
  The effect, run in the render whose bindings are \<open>s\<close>; \<open>has_geolocation\<close> is
  \<^verbatim>\<open>"geolocation" in navigator\<close>. The last branch asks for the position and registers
  \<^verbatim>\<open>handleUnload\<close>, which closes over \<open>coords s\<close>.
\<close>

definition effect :: "bool \<Rightarrow> app \<Rightarrow> app" where
  "effect has_geolocation s =
     (if crateId s = [] then
        s\<lparr>status := ''missing_crate_id'',
          error := Some (Message ''Missing crate_int_id in URL. Example: ?crate_int_id=12345'')\<rparr>
      else if \<not> isValidCrateId (Some (crateId s)) then
        s\<lparr>status := ''invalid_crate_id'',
          error := Some (Message ''Crate ID appears invalid. Expected integer.'')\<rparr>
      else if \<not> has_geolocation then
        s\<lparr>status := ''no_geolocation'',
          error := Some (Message ''Geolocation is not supported by this browser.'')\<rparr>
      else
        s\<lparr>status := ''requesting_permission'',
          listeners := listeners s @ [HandleUnload (coords s)]\<rparr>)"

definition mount :: "(string \<rightharpoonup> string) \<Rightarrow> bool \<Rightarrow> app" where
  "mount getQueryParam has_geolocation = effect has_geolocation (first_render getQueryParam)"

text \<open>
  What happens to a mounted component: the geolocation success callback stores the
  position \<open>p\<close> and starts sending; the error callback; a manual submission with the two
  input strings and the position object \<open>p\<close> built from them; the end of a
  \<^verbatim>\<open>sendLocation\<close> call; the unmounting of the component, where the function returned by
  the effect removes \<^verbatim>\<open>handleUnload\<close> from the pagehide listeners.
\<close>

datatype app_event =
    PositionFound jsval
  | PositionError string
  | ManualSubmit string string jsval
  | SendFinished submission_result
  | Unmount

fun step :: "app \<Rightarrow> app_event \<Rightarrow> app" where
  "step s (PositionFound p) = s\<lparr>coords := p, status := ''sending''\<rparr>"
| "step s (PositionError msg) = s\<lparr>status := ''permission_denied'', error := Some (Message msg)\<rparr>"
| "step s (ManualSubmit manualLat manualLng p) =
     (if manualLat = [] \<or> manualLng = [] then
        s\<lparr>error := Some (Message ''Please enter latitude and longitude.'')\<rparr>
      else s\<lparr>error := None, coords := p, status := ''sending''\<rparr>)"
| "step s (SendFinished (Success st)) = s\<lparr>status := ''sent''\<rparr>"
| "step s (SendFinished (Failure None)) =
     s\<lparr>status := ''send_failed'', error := Some (Message ''Unknown error'')\<rparr>"
| "step s (SendFinished (Failure (Some e))) =
     s\<lparr>status := ''send_failed'', error := Some (StringOf e)\<rparr>"
| "step s Unmount = s\<lparr>listeners := []\<rparr>"

text \<open>
  \<^verbatim>\<open>handleUnload\<close> with the \<^verbatim>\<open>coords\<close> of its closure, the current \<^verbatim>\<open>crateId.current\<close> and
  whether \<^verbatim>\<open>navigator.sendBeacon\<close> exists: the payloads it hands to \<^verbatim>\<open>sendBeacon\<close>.
\<close>

fun handleUnload :: "string \<Rightarrow> bool \<Rightarrow> listener \<Rightarrow> jsval list" where
  "handleUnload cid has_sendBeacon (HandleUnload c) =
     (if \<not> truthy c then []
      else if has_sendBeacon then [JObj [(''crate_int_id'', JStr cid), (''location'', c)]]
      else [])"

definition pagehide :: "bool \<Rightarrow> app \<Rightarrow> jsval list" where
  "pagehide has_sendBeacon s = concat (map (handleUnload (crateId s) has_sendBeacon) (listeners s))"

section \<open>Properties of the server\<close>

lemma get_prop_destructurable:
  "destructurable v \<Longrightarrow> get_prop v k = Inr (field v k)"
  by (cases v) (simp_all add: destructurable_def field_def)

lemma numeric_field_truthy: "numeric_field v k \<Longrightarrow> truthy v"
  by (cases v) (simp_all add: numeric_field_def)

lemma numeric_field_get:
  "numeric_field v k \<Longrightarrow> get_prop v k = Inr (field v k) \<and> typeof (field v k) = ''number''"
  by (cases v) (simp_all add: numeric_field_def field_def)

lemma not_numeric_field:
  "\<not> numeric_field v k \<Longrightarrow> truthy v \<Longrightarrow> get_prop v k = Inr (field v k) \<and> typeof (field v k) \<noteq> ''number''"
  by (cases v) (simp_all add: numeric_field_def field_def)

lemma submit_location_accepts:
  assumes "destructurable body" "truthy (field body ''crate_int_id'')"
    "numeric_field (field body ''location'') ''latitude''"
    "numeric_field (field body ''location'') ''longitude''"
  shows "submit_location body =
    Inr ([ReceivedLocation (field body ''crate_int_id'') (field body ''location'')],
         \<lparr>reply_status = 200, reply_json = JObj [(''ok'', JBool True)]\<rparr>)"
  using assms numeric_field_truthy[OF assms(3)] numeric_field_get[OF assms(3)] numeric_field_get[OF assms(4)]
  by (simp add: submit_location_def get_prop_destructurable accepted_def)

text \<open>
  A body that can be destructured (an object or an array, which is what the JSON body
  parser hands over when it has parsed one) and whose \<^verbatim>\<open>crate_int_id\<close> is absent or falsy is
  answered with status 400 and the JSON body \<^verbatim>\<open>{ error: "missing crate_int_id" }\<close>.
\<close>

lemma missing_identifier_rejected:
  assumes "destructurable body" "\<not> truthy (field body ''crate_int_id'')"
  shows "submit_location body =
    Inr ([], \<lparr>reply_status = 400, reply_json = JObj [(''error'', JStr ''missing crate_int_id'')]\<rparr>)"
  using assms by (simp add: submit_location_def get_prop_destructurable missing_crate_int_id_def)

text \<open>
  Claim C4 asks for status 400 and a JSON error body whenever the identifier is absent
  or falsy. When \<^verbatim>\<open>req.body\<close> is \<^verbatim>\<open>undefined\<close> (a request in which no JSON body was parsed),
  the identifier is absent, but the destructuring on the handler's first line throws
  before the check of \<^verbatim>\<open>crate_int_id\<close> is reached: the handler ends in a TypeError and
  sends no 400 reply. The read of \<^verbatim>\<open>location.latitude\<close> is guarded by \<^verbatim>\<open>!location\<close>; the
  read of the body's properties has no such guard.
\<close>

theorem submit_location_undefined_body_throws:
  "\<not> truthy (field JUndefined ''crate_int_id'')
   \<and> submit_location JUndefined = Inl (TypeError ''crate_int_id'')"
  by (simp add: field_def submit_location_def)

text \<open>
  Claim C5. A body with a truthy \<^verbatim>\<open>crate_int_id\<close> whose \<^verbatim>\<open>location\<close> is absent, or whose
  \<^verbatim>\<open>location.latitude\<close> or \<^verbatim>\<open>location.longitude\<close> is not of type number, is answered with
  status 400 and the JSON body \<^verbatim>\<open>{ error: "invalid location" }\<close>, not with 200.
\<close>

theorem submit_location_invalid_location:
  assumes "destructurable body" "truthy (field body ''crate_int_id'')"
    "field body ''location'' = JUndefined
      \<or> \<not> numeric_field (field body ''location'') ''latitude''
      \<or> \<not> numeric_field (field body ''location'') ''longitude''"
  shows "submit_location body =
    Inr ([], \<lparr>reply_status = 400, reply_json = JObj [(''error'', JStr ''invalid location'')]\<rparr>)"
proof (cases "truthy (field body ''location'')")
  case False
  with assms(1,2) show ?thesis
    by (simp add: submit_location_def get_prop_destructurable invalid_location_def)
next
  case loc: True
  show ?thesis
  proof (cases "numeric_field (field body ''location'') ''latitude''")
    case False
    from not_numeric_field[OF False loc] assms(1,2) loc show ?thesis
      by (simp add: submit_location_def get_prop_destructurable invalid_location_def)
  next
    case lat: True
    with assms(3) loc have "\<not> numeric_field (field body ''location'') ''longitude''"
      by auto
    from not_numeric_field[OF this loc] numeric_field_get[OF lat] assms(1,2) loc show ?thesis
      by (simp add: submit_location_def get_prop_destructurable invalid_location_def)
  qed
qed

theorem submit_location_invalid_location_witness:
  "submit_location (JObj [(''crate_int_id'', JStr ''12345''),
      (''location'', JObj [(''latitude'', JStr ''37.4''), (''longitude'', JNum (Finite True 122 0))])]) =
    Inr ([], \<lparr>reply_status = 400, reply_json = JObj [(''error'', JStr ''invalid location'')]\<rparr>)
   \<and> submit_location (JObj [(''crate_int_id'', JStr ''12345'')]) =
    Inr ([], \<lparr>reply_status = 400, reply_json = JObj [(''error'', JStr ''invalid location'')]\<rparr>)"
  using submit_location_invalid_location
    [of "JObj [(''crate_int_id'', JStr ''12345''),
      (''location'', JObj [(''latitude'', JStr ''37.4''), (''longitude'', JNum (Finite True 122 0))])]"]
    submit_location_invalid_location [of "JObj [(''crate_int_id'', JStr ''12345'')]"]
  by (simp add: destructurable_def field_def numeric_field_def)

text \<open>
  Claim C6. A well-formed body (\<^verbatim>\<open>crate_int_id\<close> a non-empty string of digits, \<^verbatim>\<open>location\<close>
  with \<^verbatim>\<open>latitude\<close> and \<^verbatim>\<open>longitude\<close> of type number) is logged and answered with status
  200 and the JSON body \<^verbatim>\<open>{ ok: true }\<close>.
\<close>

theorem submit_location_well_formed:
  assumes "destructurable body" "field body ''crate_int_id'' = JStr s" "isValidCrateId (Some s)"
    "numeric_field (field body ''location'') ''latitude''"
    "numeric_field (field body ''location'') ''longitude''"
  shows "submit_location body =
    Inr ([ReceivedLocation (JStr s) (field body ''location'')],
         \<lparr>reply_status = 200, reply_json = JObj [(''ok'', JBool True)]\<rparr>)"
proof -
  have "s \<noteq> []" using assms(3) by (auto simp: isValidCrateId_def)
  then have "truthy (field body ''crate_int_id'')" by (simp add: assms(2))
  from submit_location_accepts[OF assms(1) this assms(4,5)] show ?thesis
    by (simp add: assms(2))
qed

theorem submit_location_well_formed_witness:
  "isValidCrateId (Some ''12345'') \<and>
   submit_location (JObj [(''crate_int_id'', JStr ''12345''),
        (''location'', JObj [(''latitude'', JNum (Finite False 37 0)), (''longitude'', JNum (Finite True 122 0))])]) =
    Inr ([ReceivedLocation (JStr ''12345'')
            (JObj [(''latitude'', JNum (Finite False 37 0)), (''longitude'', JNum (Finite True 122 0))])],
         \<lparr>reply_status = 200, reply_json = JObj [(''ok'', JBool True)]\<rparr>)"
  using submit_location_well_formed
    [of "JObj [(''crate_int_id'', JStr ''12345''),
        (''location'', JObj [(''latitude'', JNum (Finite False 37 0)), (''longitude'', JNum (Finite True 122 0))])]" "''12345''"]
  by (simp add: destructurable_def field_def numeric_field_def isValidCrateId_def
      regex_digits_test_def is_digit_def)

text \<open>
  Claim C10. The server does not check the shape of the identifier: any truthy
  \<^verbatim>\<open>crate_int_id\<close>, of any type, with a \<^verbatim>\<open>location\<close> whose \<^verbatim>\<open>latitude\<close> and \<^verbatim>\<open>longitude\<close> are
  of type number (NaN included) is answered with status 200 and \<^verbatim>\<open>{ ok: true }\<close>.
\<close>

theorem submit_location_any_truthy_identifier:
  assumes "destructurable body" "truthy (field body ''crate_int_id'')"
    "numeric_field (field body ''location'') ''latitude''"
    "numeric_field (field body ''location'') ''longitude''"
  shows "submit_location body =
    Inr ([ReceivedLocation (field body ''crate_int_id'') (field body ''location'')],
         \<lparr>reply_status = 200, reply_json = JObj [(''ok'', JBool True)]\<rparr>)"
  by (rule submit_location_accepts[OF assms])

theorem submit_location_any_truthy_identifier_witness:
  "\<not> isValidCrateId (Some ''abc'') \<and>
   submit_location (JObj [(''crate_int_id'', JStr ''abc''),
        (''location'', JObj [(''latitude'', JNum NaN), (''longitude'', JNum NaN)])]) =
     Inr ([ReceivedLocation (JStr ''abc'') (JObj [(''latitude'', JNum NaN), (''longitude'', JNum NaN)])],
          \<lparr>reply_status = 200, reply_json = JObj [(''ok'', JBool True)]\<rparr>)
   \<and> submit_location (JObj [(''crate_int_id'', JBool True),
        (''location'', JObj [(''latitude'', JNum NaN), (''longitude'', JNum PosInfinity)])]) =
     Inr ([ReceivedLocation (JBool True) (JObj [(''latitude'', JNum NaN), (''longitude'', JNum PosInfinity)])],
          \<lparr>reply_status = 200, reply_json = JObj [(''ok'', JBool True)]\<rparr>)"
  using submit_location_any_truthy_identifier
    [of "JObj [(''crate_int_id'', JStr ''abc''),
        (''location'', JObj [(''latitude'', JNum NaN), (''longitude'', JNum NaN)])]"]
    submit_location_any_truthy_identifier
    [of "JObj [(''crate_int_id'', JBool True),
        (''location'', JObj [(''latitude'', JNum NaN), (''longitude'', JNum PosInfinity)])]"]
  by (simp add: destructurable_def field_def numeric_field_def isValidCrateId_def
      regex_digits_test_def is_digit_def)

section \<open>Properties of the identifier validator\<close>

lemma skip_digits_Nil: "skip_digits cs = [] \<longleftrightarrow> (\<forall>c\<in>set cs. is_digit c)"
  by (induction cs) auto

text \<open>
  Claim C8. \<^verbatim>\<open>isValidCrateId\<close> is true exactly for the non-empty strings made of decimal
  digits only; it accepts \<^verbatim>\<open>"12345"\<close> and rejects \<^verbatim>\<open>"abc"\<close>, the empty string and \<^verbatim>\<open>null\<close>.
\<close>

theorem isValidCrateId_digits:
  "isValidCrateId cid \<longleftrightarrow> (\<exists>s. cid = Some s \<and> s \<noteq> [] \<and> (\<forall>c\<in>set s. is_digit c))"
  by (cases cid)
    (auto simp: isValidCrateId_def regex_digits_test_def skip_digits_Nil split: list.splits)

theorem isValidCrateId_digits_witness:
  "isValidCrateId (Some ''12345'') \<and> \<not> isValidCrateId (Some ''abc'')
    \<and> \<not> isValidCrateId (Some []) \<and> \<not> isValidCrateId None"
  using isValidCrateId_digits[of "Some ''12345''"] isValidCrateId_digits[of "Some ''abc''"]
    isValidCrateId_digits[of "Some []"] isValidCrateId_digits[of None]
  by (simp add: is_digit_def)

section \<open>Properties of sendLocation\<close>

lemma show_nat_500: "show_nat 500 = ''500''"
  by (simp add: show_nat.simps digit_char_def)

lemma loop_exit:
  "\<not> int a \<le> retries \<Longrightarrow> sendLocation_loop s f p retries a l = Inr (Failure l, [])"
  by (simp add: sendLocation_loop.simps)

lemma loop_returns:
  "int a \<le> retries \<Longrightarrow> try_block s f p a = (evs, Inr (Returns st))
    \<Longrightarrow> sendLocation_loop s f p retries a l = Inr (Success st, evs)"
  by (subst sendLocation_loop.simps) simp

lemma loop_breaks:
  "int a \<le> retries \<Longrightarrow> try_block s f p a = (evs, Inr (Breaks e))
    \<Longrightarrow> sendLocation_loop s f p retries a l = Inr (Failure (Some e), evs)"
  by (subst sendLocation_loop.simps) simp

lemma loop_falls_through:
  "int a \<le> retries \<Longrightarrow> try_block s f p a = (evs, Inr (FallsThrough e))
    \<Longrightarrow> sendLocation_loop s f p retries a l =
        after_events (evs @ [Wait (backoff (Suc a))]) (sendLocation_loop s f p retries (Suc a) (Some e))"
  by (subst sendLocation_loop.simps) simp

lemma loop_catches:
  "int a \<le> retries \<Longrightarrow> try_block s f p a = (evs, Inl e)
    \<Longrightarrow> sendLocation_loop s f p retries a l =
        after_events (evs @ [Wait (backoff (Suc a))]) (sendLocation_loop s f p retries (Suc a) (Some e))"
  by (subst sendLocation_loop.simps) simp

lemma loop_resolves:
  "\<exists>res evs. sendLocation_loop s f p retries a l = Inr (res, evs)"
proof (induction s f p retries a l rule: sendLocation_loop.induct)
  case (1 s f p retries a l)
  show ?case
  proof (cases "int a \<le> retries")
    case False
    then show ?thesis by (simp add: loop_exit)
  next
    case True
    obtain evs r where tb: "try_block s f p a = (evs, r)" by (cases "try_block s f p a")
    show ?thesis
    proof (cases r)
      case (Inl e)
      from "1.IH"(1)[OF True tb[symmetric] Inl]
      show ?thesis using loop_catches[OF True tb[unfolded Inl]]
        by (auto simp: after_events_def)
    next
      case (Inr t)
      show ?thesis
      proof (cases t)
        case (Returns st)
        then show ?thesis using loop_returns[OF True tb[unfolded Inr Returns]] by simp
      next
        case (Breaks e)
        then show ?thesis using loop_breaks[OF True tb[unfolded Inr Breaks]] by simp
      next
        case (FallsThrough e)
        from "1.IH"(2)[OF True tb[symmetric] Inr FallsThrough]
        show ?thesis using loop_falls_through[OF True tb[unfolded Inr FallsThrough]]
          by (auto simp: after_events_def)
      qed
    qed
  qed
qed

lemma waits_append: "waits (xs @ ys) = waits xs @ waits ys"
  by (induction xs rule: waits.induct) simp_all

lemma posts_append: "posts (xs @ ys) = posts xs @ posts ys"
  by (induction xs rule: posts.induct) simp_all

lemma waits_try_block: "waits (fst (try_block s f p a)) = []"
  by (simp add: try_block_def split: sum.splits fetch_outcome.splits)

lemma events_of_after_events:
  "r = Inr x \<Longrightarrow> events_of (after_events evs r) = evs @ events_of r"
  by (cases x) (simp add: events_of_def after_events_def)

lemma loop_waits:
  "waits (events_of (sendLocation_loop s f p retries a l)) =
     map backoff [Suc a ..< Suc a + length (waits (events_of (sendLocation_loop s f p retries a l)))]"
proof (induction s f p retries a l rule: sendLocation_loop.induct)
  case (1 s f p retries a l)
  show ?case
  proof (cases "int a \<le> retries")
    case False
    then show ?thesis by (simp add: loop_exit events_of_def)
  next
    case True
    obtain evs r where tb: "try_block s f p a = (evs, r)" by (cases "try_block s f p a")
    have w: "waits evs = []" using waits_try_block[of s f p a] tb by simp
    have retry: "?thesis"
      if eq: "sendLocation_loop s f p retries a l =
            after_events (evs @ [Wait (backoff (Suc a))]) (sendLocation_loop s f p retries (Suc a) (Some e))"
        and ih: "waits (events_of (sendLocation_loop s f p retries (Suc a) (Some e))) =
            map backoff [Suc (Suc a) ..< Suc (Suc a) +
               length (waits (events_of (sendLocation_loop s f p retries (Suc a) (Some e))))]"
      for e
    proof -
      obtain x where x: "sendLocation_loop s f p retries (Suc a) (Some e) = Inr x"
        using loop_resolves[of s f p retries "Suc a" "Some e"] by auto
      define ws where "ws = waits (events_of (sendLocation_loop s f p retries (Suc a) (Some e)))"
      have now: "waits (events_of (sendLocation_loop s f p retries a l)) = backoff (Suc a) # ws"
        by (simp add: eq events_of_after_events[OF x] waits_append w ws_def)
      have rest: "ws = map backoff [Suc (Suc a) ..< Suc (Suc a) + length ws]"
        using ih by (simp only: ws_def)
      have "[Suc a ..< Suc a + length (backoff (Suc a) # ws)] =
              Suc a # [Suc (Suc a) ..< Suc (Suc a) + length ws]"
        by (subst upt_rec) simp
      then have "map backoff [Suc a ..< Suc a + length (backoff (Suc a) # ws)] = backoff (Suc a) # ws"
        using rest by (simp only: list.map)
      then show ?thesis
        by (simp only: now)
    qed
    show ?thesis
    proof (cases r)
      case (Inl e)
      show ?thesis
        by (rule retry[OF loop_catches[OF True tb[unfolded Inl]] "1.IH"(1)[OF True tb[symmetric] Inl]])
    next
      case (Inr t)
      show ?thesis
      proof (cases t)
        case (Returns st)
        then show ?thesis using loop_returns[OF True tb[unfolded Inr Returns]] w
          by (simp add: events_of_def)
      next
        case (Breaks e)
        then show ?thesis using loop_breaks[OF True tb[unfolded Inr Breaks]] w
          by (simp add: events_of_def)
      next
        case (FallsThrough e)
        show ?thesis
          by (rule retry[OF loop_falls_through[OF True tb[unfolded Inr FallsThrough]]
                "1.IH"(2)[OF True tb[symmetric] Inr FallsThrough]])
      qed
    qed
  qed
qed

lemma loop_retries:
  assumes "int a \<le> retries" "retriable_failure (snd (try_block s f p a))"
  shows "\<exists>e. sendLocation_loop s f p retries a l =
     after_events (fst (try_block s f p a) @ [Wait (backoff (Suc a))])
       (sendLocation_loop s f p retries (Suc a) (Some e))"
proof (cases "snd (try_block s f p a)")
  case (Inl e)
  then have "try_block s f p a = (fst (try_block s f p a), Inl e)"
    by (simp add: prod_eq_iff)
  from loop_catches[OF assms(1) this] show ?thesis by blast
next
  case (Inr t)
  with assms(2) obtain e where "t = FallsThrough e"
    by (cases t) (simp_all add: retriable_failure_def)
  with Inr have "try_block s f p a = (fst (try_block s f p a), Inr (FallsThrough e))"
    by (simp add: prod_eq_iff)
  from loop_falls_through[OF assms(1) this] show ?thesis by blast
qed

lemma loop_prefix:
  "int a + int k \<le> retries + 1 \<Longrightarrow> (\<And>i. i < k \<Longrightarrow> retriable_failure (snd (try_block s f p (a + i))))
   \<Longrightarrow> \<exists>l'. events_of (sendLocation_loop s f p retries a l) =
         concat (map (\<lambda>i. fst (try_block s f p i) @ [Wait (backoff (Suc i))]) [a ..< a + k])
         @ events_of (sendLocation_loop s f p retries (a + k) l')"
proof (induction k arbitrary: a l)
  case 0
  show ?case by (rule exI[of _ l]) simp
next
  case (Suc k)
  have a: "int a \<le> retries" using Suc.prems(1) by simp
  have "retriable_failure (snd (try_block s f p a))" using Suc.prems(2)[of 0] by simp
  from loop_retries[OF a this, of l] obtain e where
    st: "sendLocation_loop s f p retries a l =
     after_events (fst (try_block s f p a) @ [Wait (backoff (Suc a))])
       (sendLocation_loop s f p retries (Suc a) (Some e))" by blast
  obtain x where x: "sendLocation_loop s f p retries (Suc a) (Some e) = Inr x"
    using loop_resolves[of s f p retries "Suc a" "Some e"] by auto
  have "int (Suc a) + int k \<le> retries + 1" using Suc.prems(1) by simp
  moreover have "retriable_failure (snd (try_block s f p (Suc a + i)))" if "i < k" for i
    using Suc.prems(2)[of "Suc i"] that by simp
  ultimately obtain l' where ih: "events_of (sendLocation_loop s f p retries (Suc a) (Some e)) =
         concat (map (\<lambda>i. fst (try_block s f p i) @ [Wait (backoff (Suc i))]) [Suc a ..< Suc a + k])
         @ events_of (sendLocation_loop s f p retries (Suc a + k) l')"
    using Suc.IH[of "Suc a" "Some e"] by blast
  have "[a ..< a + Suc k] = a # [Suc a ..< Suc a + k]"
    by (subst upt_rec) simp
  then show ?case
    by (intro exI[of _ l']) (simp add: st events_of_after_events[OF x] ih)
qed

lemma try_block_status:
  "stringify payload = Inr body \<Longrightarrow> fetch a body = Resolved res \<Longrightarrow> \<not> res_ok res
   \<Longrightarrow> try_block stringify fetch payload a =
        ([Post body], Inr (if 400 \<le> res_status res \<and> res_status res < 500
                       then Breaks (http_error res) else FallsThrough (http_error res)))"
  by (simp add: try_block_def)

text \<open>
  Claim C9. Whatever the payload, the retry bound and the transport do, the promise of
  \<^verbatim>\<open>sendLocation\<close> resolves to a result, \<^verbatim>\<open>{ ok: true, status }\<close> or \<^verbatim>\<open>{ ok: false, error }\<close>:
  the loop ends and no exception leaves the function.
\<close>

theorem sendLocation_always_resolves:
  "\<exists>res evs. sendLocation stringify fetch payload opts = Inr (res, evs)"
  unfolding sendLocation_def by (rule loop_resolves)

lemma try_block_rejected:
  "stringify payload = Inr body \<Longrightarrow> fetch a body = Rejected err
   \<Longrightarrow> try_block stringify fetch payload a = ([Post body], Inl err)"
  by (simp add: try_block_def)

lemma try_block_error_response:
  "stringify payload = Inr body \<Longrightarrow> fetch a body = Resolved res
   \<Longrightarrow> \<not> (200 \<le> res_status res \<and> res_status res \<le> 299)
   \<Longrightarrow> \<not> (400 \<le> res_status res \<and> res_status res \<le> 499)
   \<Longrightarrow> try_block stringify fetch payload a = ([Post body], Inr (FallsThrough (http_error res)))"
proof -
  assume s: "stringify payload = Inr body" and f: "fetch a body = Resolved res"
    and ok: "\<not> (200 \<le> res_status res \<and> res_status res \<le> 299)"
    and ce: "\<not> (400 \<le> res_status res \<and> res_status res \<le> 499)"
  from ce have "\<not> (400 \<le> res_status res \<and> res_status res < 500)" by arith
  with s f ok show ?thesis
    by (simp add: try_block_def res_ok_def)
qed

text \<open>
  Claim C7. After every retriable failure (a network error, that is a rejected
  \<^verbatim>\<open>fetch\<close>, or an error response whose status is outside 400..499) the loop increments
  \<^verbatim>\<open>attempt\<close> and asks for a delay of \<open>500 * 2 ^ attempt\<close> ms with the incremented value:
  when each of the first \<open>k\<close> attempts ends in such a failure, the run is attempt 0, a wait
  of 1000 ms, attempt 1, a wait of 2000 ms and so on up to the wait of \<open>500 * 2 ^ k\<close> ms
  after attempt \<open>k - 1\<close>, and goes on with attempt \<open>k\<close>. In every run the delays asked for
  are 1000, 2000, 4000, ... in this order.
\<close>

theorem sendLocation_backoff_delays:
  assumes "int k \<le> retry_bound opts + 1"
    and "stringify payload = Inr body"
    and "\<forall>i<k. (\<exists>err. fetch i body = Rejected err)
          \<or> (\<exists>res. fetch i body = Resolved res
                \<and> \<not> (200 \<le> res_status res \<and> res_status res \<le> 299)
                \<and> \<not> (400 \<le> res_status res \<and> res_status res \<le> 499))"
  shows "(\<exists>lastErr. events_of (sendLocation stringify fetch payload opts) =
           concat (map (\<lambda>i. [Post body, Wait (500 * 2 ^ (i + 1))]) [0 ..< k])
           @ events_of (sendLocation_loop stringify fetch payload (retry_bound opts) k lastErr))
    \<and> waits (events_of (sendLocation stringify fetch payload opts)) =
       map (\<lambda>n. 500 * 2 ^ n)
         [1 ..< 1 + length (waits (events_of (sendLocation stringify fetch payload opts)))]"
proof
  have tb: "fst (try_block stringify fetch payload i) = [Post body]
      \<and> retriable_failure (snd (try_block stringify fetch payload i))" if "i < k" for i
  proof -
    from assms(3) that consider
      err where "fetch i body = Rejected err"
      | res where "fetch i body = Resolved res"
          "\<not> (200 \<le> res_status res \<and> res_status res \<le> 299)"
          "\<not> (400 \<le> res_status res \<and> res_status res \<le> 499)"
      by blast
    then show ?thesis
    proof cases
      case 1
      from try_block_rejected[of stringify payload body fetch i err] assms(2) 1
      show ?thesis by (simp add: retriable_failure_def)
    next
      case 2
      from try_block_error_response[of stringify payload body fetch i res] assms(2) 2
      show ?thesis by (simp add: retriable_failure_def)
    qed
  qed
  have m: "map (\<lambda>i. fst (try_block stringify fetch payload i) @ [Wait (backoff (Suc i))]) [0 ..< k] =
     map (\<lambda>i. [Post body, Wait (500 * 2 ^ (i + 1))]) [0 ..< k]"
    by (rule map_cong) (simp_all add: tb backoff_def)
  from loop_prefix[of 0 k "retry_bound opts" stringify fetch payload None] assms(1) tb
  have "\<exists>l'. events_of (sendLocation_loop stringify fetch payload (retry_bound opts) 0 None) =
         concat (map (\<lambda>i. fst (try_block stringify fetch payload i) @ [Wait (backoff (Suc i))]) [0 ..< k])
         @ events_of (sendLocation_loop stringify fetch payload (retry_bound opts) k l')"
    by simp
  then show "\<exists>lastErr. events_of (sendLocation stringify fetch payload opts) =
           concat (map (\<lambda>i. [Post body, Wait (500 * 2 ^ (i + 1))]) [0 ..< k])
           @ events_of (sendLocation_loop stringify fetch payload (retry_bound opts) k lastErr)"
    by (simp only: sendLocation_def m)
next
  have "backoff = (\<lambda>k. 500 * 2 ^ k)" by (simp add: fun_eq_iff backoff_def)
  with loop_waits[of stringify fetch payload "retry_bound opts" 0 None]
  show "waits (events_of (sendLocation stringify fetch payload opts)) =
       map (\<lambda>k. 500 * 2 ^ k)
         [1 ..< 1 + length (waits (events_of (sendLocation stringify fetch payload opts)))]"
    by (simp add: sendLocation_def)
qed

theorem sendLocation_backoff_delays_witness:
  "take 8 (events_of (sendLocation (\<lambda>p. Inr ''{}'')
      (\<lambda>n b. if n = 0 then Rejected (TypeError ''Failed to fetch'')
             else if n = 1 then Resolved \<lparr>res_status = 500, res_text = Some ''down''\<rparr>
             else if n = 2 then Resolved \<lparr>res_status = 503, res_text = None\<rparr>
             else Resolved \<lparr>res_status = 302, res_text = None\<rparr>)
      (JObj []) None)) =
      [Post ''{}'', Wait 1000, Post ''{}'', Wait 2000, Post ''{}'', Wait 4000, Post ''{}'', Wait 8000]"
proof -
  have u: "[0 ..< 4] = [0, 1, 2, 3 :: nat]"
    by (simp add: upt_rec)
  have h: "\<forall>i<4::nat. (\<exists>err. (if i = 0 then Rejected (TypeError ''Failed to fetch'')
             else if i = 1 then Resolved \<lparr>res_status = 500, res_text = Some ''down''\<rparr>
             else if i = 2 then Resolved \<lparr>res_status = 503, res_text = None\<rparr>
             else Resolved \<lparr>res_status = 302, res_text = None\<rparr>) = Rejected err)
          \<or> (\<exists>res. (if i = 0 then Rejected (TypeError ''Failed to fetch'')
             else if i = 1 then Resolved \<lparr>res_status = 500, res_text = Some ''down''\<rparr>
             else if i = 2 then Resolved \<lparr>res_status = 503, res_text = None\<rparr>
             else Resolved \<lparr>res_status = 302, res_text = None\<rparr>) = Resolved res
                \<and> \<not> (200 \<le> res_status res \<and> res_status res \<le> 299)
                \<and> \<not> (400 \<le> res_status res \<and> res_status res \<le> 499))"
    by simp
  from sendLocation_backoff_delays[of 4 None "\<lambda>p. Inr ''{}''" "JObj []" "''{}''"
      "\<lambda>n b. if n = 0 then Rejected (TypeError ''Failed to fetch'')
             else if n = 1 then Resolved \<lparr>res_status = 500, res_text = Some ''down''\<rparr>
             else if n = 2 then Resolved \<lparr>res_status = 503, res_text = None\<rparr>
             else Resolved \<lparr>res_status = 302, res_text = None\<rparr>", THEN conjunct1] h
  show ?thesis
    by (auto simp: retry_bound_def u)
qed

text \<open>
  Claim C3. When the first attempt is answered with a status in 400..499, \<^verbatim>\<open>sendLocation\<close>
  returns \<^verbatim>\<open>{ ok: false, error }\<close> with the error of that response after this single POST:
  no second POST and no wait.
\<close>

theorem sendLocation_client_error_single_attempt:
  assumes "0 \<le> retry_bound opts" "stringify payload = Inr body" "fetch 0 body = Resolved res"
    "400 \<le> res_status res" "res_status res \<le> 499"
  shows "sendLocation stringify fetch payload opts = Inr (Failure (Some (http_error res)), [Post body])"
proof -
  have "\<not> res_ok res" using assms(4) by (simp add: res_ok_def)
  with try_block_status[of stringify payload body fetch 0 res] assms(2-5)
  have "try_block stringify fetch payload 0 = ([Post body], Inr (Breaks (http_error res)))"
    by simp
  from loop_breaks[OF _ this, of "retry_bound opts" None] assms(1)
  show ?thesis by (simp add: sendLocation_def)
qed

lemma show_nat_404: "show_nat 404 = ''404''"
  by (simp add: show_nat.simps digit_char_def)

theorem sendLocation_client_error_single_attempt_witness:
  "sendLocation (\<lambda>p. Inr ''{}'') (\<lambda>n b. Resolved \<lparr>res_status = 404, res_text = None\<rparr>) (JObj []) None =
     Inr (Failure (Some (Error ''HTTP 404 '')), [Post ''{}''])"
  using sendLocation_client_error_single_attempt
    [of None "\<lambda>p. Inr ''{}''" "JObj []" "''{}''"
      "\<lambda>n b. Resolved \<lparr>res_status = 404, res_text = None\<rparr>" "\<lparr>res_status = 404, res_text = None\<rparr>"]
  by (simp add: retry_bound_def http_error_def text_or_empty_def show_nat_404)

text \<open>
  Claim C2. With a transport that answers every attempt with status 500, \<^verbatim>\<open>sendLocation\<close>
  called with \<^verbatim>\<open>retries = 3\<close> makes exactly four POST requests (each followed by its
  wait) and returns \<^verbatim>\<open>{ ok: false, error }\<close> with the error of the last response.
\<close>

theorem sendLocation_always_500_four_posts:
  assumes s: "stringify payload = Inr body"
    and f: "\<forall>n. fetch n body = Resolved (res n) \<and> res_status (res n) = 500"
  shows "sendLocation stringify fetch payload (Some 3) =
     Inr (Failure (Some (Error (''HTTP 500 '' @ text_or_empty (res 3)))),
          [Post body, Wait 1000, Post body, Wait 2000, Post body, Wait 4000, Post body, Wait 8000])
   \<and> length (posts (events_of (sendLocation stringify fetch payload (Some 3)))) = 4"
proof -
  have tb: "try_block stringify fetch payload n = ([Post body], Inr (FallsThrough (http_error (res n))))" for n
    using try_block_status[of stringify payload body fetch n "res n"] s f by (simp add: res_ok_def)
  have e: "http_error (res n) = Error (''HTTP 500 '' @ text_or_empty (res n))" for n
    using f by (simp add: http_error_def show_nat_500)
  have step: "sendLocation_loop stringify fetch payload 3 a l =
      after_events [Post body, Wait (500 * 2 ^ b)]
        (sendLocation_loop stringify fetch payload 3 b (Some (http_error (res a))))"
    if "a \<le> 3" "b = a + 1" for a b l
    using loop_falls_through[OF _ tb, of a 3 l] that by (simp add: backoff_def)
  have l4: "sendLocation_loop stringify fetch payload 3 4 l = Inr (Failure l, [])" for l
    by (rule loop_exit) simp
  have l3: "sendLocation_loop stringify fetch payload 3 3 l =
     Inr (Failure (Some (http_error (res 3))), [Post body, Wait 8000])" for l
  proof -
    have "sendLocation_loop stringify fetch payload 3 3 l =
      after_events [Post body, Wait (500 * 2 ^ 4)]
        (sendLocation_loop stringify fetch payload 3 4 (Some (http_error (res 3))))"
      by (rule step) simp_all
    then show ?thesis
      by (simp add: l4 after_events_def)
  qed
  have l2: "sendLocation_loop stringify fetch payload 3 2 l =
     Inr (Failure (Some (http_error (res 3))), [Post body, Wait 4000, Post body, Wait 8000])" for l
  proof -
    have "sendLocation_loop stringify fetch payload 3 2 l =
      after_events [Post body, Wait (500 * 2 ^ 3)]
        (sendLocation_loop stringify fetch payload 3 3 (Some (http_error (res 2))))"
      by (rule step) simp_all
    then show ?thesis
      by (simp add: l3 after_events_def)
  qed
  have l1: "sendLocation_loop stringify fetch payload 3 (Suc 0) l =
     Inr (Failure (Some (http_error (res 3))),
       [Post body, Wait 2000, Post body, Wait 4000, Post body, Wait 8000])" for l
  proof -
    have "sendLocation_loop stringify fetch payload 3 (Suc 0) l =
      after_events [Post body, Wait (500 * 2 ^ 2)]
        (sendLocation_loop stringify fetch payload 3 2 (Some (http_error (res (Suc 0)))))"
      by (rule step) simp_all
    then show ?thesis
      by (simp add: l2 after_events_def)
  qed
  have l0: "sendLocation_loop stringify fetch payload 3 0 l =
     Inr (Failure (Some (http_error (res 3))),
       [Post body, Wait 1000, Post body, Wait 2000, Post body, Wait 4000, Post body, Wait 8000])" for l
  proof -
    have "sendLocation_loop stringify fetch payload 3 0 l =
      after_events [Post body, Wait (500 * 2 ^ 1)]
        (sendLocation_loop stringify fetch payload 3 1 (Some (http_error (res 0))))"
      by (rule step) simp_all
    then show ?thesis
      by (simp add: l1 after_events_def)
  qed
  show ?thesis
    by (simp add: sendLocation_def retry_bound_def l0 e events_of_def)
qed

theorem sendLocation_always_500_four_posts_witness:
  "sendLocation (\<lambda>p. Inr ''{}'') (\<lambda>n b. Resolved \<lparr>res_status = 500, res_text = Some ''down''\<rparr>) (JObj []) (Some 3) =
     Inr (Failure (Some (Error ''HTTP 500 down'')),
          [Post ''{}'', Wait 1000, Post ''{}'', Wait 2000, Post ''{}'', Wait 4000, Post ''{}'', Wait 8000])"
  using sendLocation_always_500_four_posts
    [of "\<lambda>p. Inr ''{}''" "JObj []" "''{}''"
      "\<lambda>n b. Resolved \<lparr>res_status = 500, res_text = Some ''down''\<rparr>"
      "\<lambda>n. \<lparr>res_status = 500, res_text = Some ''down''\<rparr>"]
  by (simp add: text_or_empty_def)

section \<open>The pagehide listener\<close>

lemma listeners_step: "set (listeners (step s e)) \<subseteq> set (listeners s)"
  by (induction s e rule: step.induct) simp_all

lemma listeners_foldl_step: "set (listeners (foldl step s es)) \<subseteq> set (listeners s)"
proof (induction es arbitrary: s)
  case Nil
  show ?case by simp
next
  case (Cons e es)
  from Cons.IH[of "step s e"] listeners_step[of s e] show ?case by auto
qed

lemma listeners_mount: "set (listeners (mount q geo)) \<subseteq> {HandleUnload JNull}"
  by (simp add: mount_def effect_def first_render_def)

lemma pagehide_never_sends: "pagehide b (foldl step (mount q geo) es) = []"
proof -
  have "set (listeners (foldl step (mount q geo) es)) \<subseteq> {HandleUnload JNull}"
    using listeners_foldl_step[of "mount q geo" es] listeners_mount[of q geo] by blast
  then have "\<forall>l \<in> set (listeners (foldl step (mount q geo) es)).
      handleUnload (crateId (foldl step (mount q geo) es)) b l = []"
    by auto
  then show ?thesis
    by (simp add: pagehide_def)
qed

text \<open>
  Claim C1 asks that on pagehide the last captured position is sent as one beacon. The
  registered \<^verbatim>\<open>handleUnload\<close> holds the \<^verbatim>\<open>coords\<close> of the first render, which is
  \<^verbatim>\<open>null\<close>: with the page opened at \<^verbatim>\<open>?crate_int_id=12345\<close>, geolocation and
  \<^verbatim>\<open>navigator.sendBeacon\<close> available and a position captured, pagehide sends nothing.
\<close>

theorem pagehide_after_capture_sends_nothing:
  "coords (step (mount [''crate_int_id'' \<mapsto> ''12345''] True)
      (PositionFound (JObj [(''latitude'', JNum (Finite False 1 0)), (''longitude'', JNum (Finite False 1 1))]))) =
      JObj [(''latitude'', JNum (Finite False 1 0)), (''longitude'', JNum (Finite False 1 1))]
   \<and> listeners (mount [''crate_int_id'' \<mapsto> ''12345''] True) = [HandleUnload JNull]
   \<and> pagehide True (step (mount [''crate_int_id'' \<mapsto> ''12345''] True)
      (PositionFound (JObj [(''latitude'', JNum (Finite False 1 0)), (''longitude'', JNum (Finite False 1 1))]))) = []"
  by (simp add: pagehide_def mount_def effect_def first_render_def crateId_of_query_def js_or_def
      isValidCrateId_def regex_digits_test_def is_digit_def)

end
